theory Spec2Isabelle
  imports Complex_Main
begin

section \<open>Host memory and OpenCV matrices\<close>

text \<open>
  A sample is modelled by the number it denotes; a cell of memory that was allocated but
  never written holds no value (\<open>None\<close>). Infinities and NaN are outside the model.
  Host memory is a list of buffers, a pointer is the index of a buffer, and an allocation
  appends a buffer. Buffers are never reclaimed: the release of temporaries at the end of
  a scope is left out. \<open>msgs\<close> is what \<open>MSG\<close> has reported so far.
\<close>

type_synonym cell = "rat option"

record host_mem =
  bufs :: "cell list list"
  msgs :: "string list"

text \<open>
  The header of a \<open>cv::Mat\<close>: its size, its type code and the pointer to its pixels,
  stored row-major with the channels of a pixel interleaved. The type code packs the
  depth in its low three bits and the channel count minus one above them, as OpenCV's
  \<open>CV_MAKETYPE\<close> does, so that a matrix always has at least one channel.
\<close>

record mat =
  rows :: nat
  cols :: nat
  mtype :: int
  data :: nat

definition CV_8U :: int where "CV_8U = 0"
definition CV_8S :: int where "CV_8S = 1"
definition CV_16U :: int where "CV_16U = 2"
definition CV_16S :: int where "CV_16S = 3"
definition CV_32S :: int where "CV_32S = 4"
definition CV_32F :: int where "CV_32F = 5"
definition CV_64F :: int where "CV_64F = 6"

definition CV_MAKETYPE :: "int \<Rightarrow> nat \<Rightarrow> int" where
  "CV_MAKETYPE d cn = d mod 8 + 8 * (int cn - 1)"

definition CV_32FC2 :: int where "CV_32FC2 = CV_MAKETYPE CV_32F 2"
definition CV_32FC3 :: int where "CV_32FC3 = CV_MAKETYPE CV_32F 3"

definition depth :: "mat \<Rightarrow> int" where
  "depth m = mtype m mod 8"

definition channels :: "mat \<Rightarrow> nat" where
  "channels m = nat (mtype m div 8 mod 512) + 1"

definition alloc :: "cell list \<Rightarrow> host_mem \<Rightarrow> host_mem \<times> nat" where
  "alloc xs st = (st\<lparr>bufs := bufs st @ [xs]\<rparr>, length (bufs st))"

text \<open>\<open>m.ptr<T>(0)\<close>: the cells from the start of the pixel buffer.\<close>

definition ptr :: "mat \<Rightarrow> host_mem \<Rightarrow> cell list" where
  "ptr m st = bufs st ! data m"

text \<open>
  \<open>cv::Mat(rows, cols, type)\<close>: the type code is masked to twelve bits, and the pixel
  buffer is allocated without being written.
\<close>

definition Mat_new :: "nat \<Rightarrow> nat \<Rightarrow> int \<Rightarrow> host_mem \<Rightarrow> host_mem \<times> mat" where
  "Mat_new r c t st =
     (let ty = t mod 4096;
          (st', a) = alloc (replicate (r * c * (nat (ty div 8) + 1)) None) st
      in (st', \<lparr>rows = r, cols = c, mtype = ty, data = a\<rparr>))"

text \<open>\<open>m.clone()\<close>: a new header on a new buffer holding a copy of the pixels.\<close>

definition clone :: "mat \<Rightarrow> host_mem \<Rightarrow> host_mem \<times> mat" where
  "clone m st = (let (st', a) = alloc (ptr m st) st in (st', m\<lparr>data := a\<rparr>))"

text \<open>
  \<open>saturate_cast<float>\<close> from a sample of depth \<open>d\<close>. The integers of 8 and 16 bits
  are float32 values, and a float32 sample is not converted; a 32-bit integer or a
  float64 is rounded to float32, and the rounding \<open>rnd\<close> is a parameter of the model.
\<close>

definition saturate_cast_float :: "(rat \<Rightarrow> rat) \<Rightarrow> int \<Rightarrow> rat \<Rightarrow> rat" where
  "saturate_cast_float rnd d v = (if d = CV_32S \<or> d = CV_64F then rnd v else v)"

text \<open>
  \<open>m.convertTo(m, rtype)\<close> for a float32 \<open>rtype\<close>, the only use in this program. Only
  the depth of \<open>rtype\<close> counts: the channel count stays that of \<open>m\<close>. A matrix that has
  the depth already is left as it is; otherwise the header \<open>m\<close> is pointed to a new
  buffer of converted samples.
\<close>

definition convertTo :: "(rat \<Rightarrow> rat) \<Rightarrow> int \<Rightarrow> mat \<Rightarrow> host_mem \<Rightarrow> host_mem \<times> mat" where
  "convertTo rnd rtype m st =
     (if depth m = rtype mod 8 then (st, m)
      else
        let (st', a) = alloc (map (map_option (saturate_cast_float rnd (depth m))) (ptr m st)) st
        in (st', m\<lparr>mtype := CV_MAKETYPE rtype (channels m), data := a\<rparr>))"

text \<open>
  \<open>split(m, mv)\<close>: one single-channel matrix per channel of \<open>m\<close>; channel \<open>c\<close> of pixel
  \<open>p\<close> is at offset \<open>p * channels + c\<close> of the interleaved buffer.
\<close>

definition plane_of :: "nat \<Rightarrow> nat \<Rightarrow> nat \<Rightarrow> cell list \<Rightarrow> cell list" where
  "plane_of n cn c xs = map (\<lambda>p. xs ! (p * cn + c)) [0..<n]"

definition split :: "mat \<Rightarrow> host_mem \<Rightarrow> host_mem \<times> mat list" where
  "split m st =
     (let xs = ptr m st; cn = channels m; n = rows m * cols m
      in (st\<lparr>bufs := bufs st @ map (\<lambda>c. plane_of n cn c xs) [0..<cn]\<rparr>,
          map (\<lambda>c. \<lparr>rows = rows m, cols = cols m, mtype = depth m,
                     data = length (bufs st) + c\<rparr>) [0..<cn]))"

section \<open>ArrayFire arrays\<close>

text \<open>
  A device array: its first three dimensions and its elements in column-major order
  (the first index varies fastest). The elements are float32 values, as in every array
  this program makes.
\<close>

record array =
  d0 :: nat
  d1 :: nat
  d2 :: nat
  elems :: "cell list"

text \<open>\<open>array(dim0, dim1, ptr)\<close>: a two-dimensional array read from host memory.\<close>

definition array_host :: "nat \<Rightarrow> nat \<Rightarrow> cell list \<Rightarrow> array" where
  "array_host n0 n1 p = \<lparr>d0 = n0, d1 = n1, d2 = 1, elems = take (n0 * n1) p\<rparr>"

text \<open>\<open>array(dim0, dim1, dim2)\<close>: a three-dimensional array, not yet written.\<close>

definition array_new :: "nat \<Rightarrow> nat \<Rightarrow> nat \<Rightarrow> array" where
  "array_new n0 n1 n2 = \<lparr>d0 = n0, d1 = n1, d2 = n2, elems = replicate (n0 * n1 * n2) None\<rparr>"

text \<open>
  \<open>a.T()\<close> of a two-dimensional array: element \<open>(i, j)\<close> of the result, at offset
  \<open>i + j * d1 a\<close>, is element \<open>(j, i)\<close> of \<open>a\<close>, at offset \<open>j + i * d0 a\<close>.
\<close>

definition T :: "array \<Rightarrow> array" where
  "T a = \<lparr>d0 = d1 a, d1 = d0 a, d2 = d2 a,
          elems = map (\<lambda>k. elems a ! (k div d1 a + (k mod d1 a) * d0 a)) [0..<d0 a * d1 a]\<rparr>"

text \<open>\<open>a(span, span, k) = x\<close>: plane \<open>k\<close> of \<open>a\<close> is overwritten with the elements of \<open>x\<close>.\<close>

definition assign_plane :: "array \<Rightarrow> nat \<Rightarrow> array \<Rightarrow> array" where
  "assign_plane a k x =
     (let n = d0 a * d1 a
      in a\<lparr>elems := take (k * n) (elems a) @ take n (elems x) @ drop ((k + 1) * n) (elems a)\<rparr>)"

text \<open>
  \<open>a.as(type)\<close>: every element cast. A float32 is a float64 value, so \<open>f64\<close> keeps the
  number; \<open>b8\<close> is ArrayFire's 8-bit boolean type, and the cast of a number to it is 1
  when the number is not zero and 0 when it is.
\<close>

datatype dtype = f32 | f64 | b8

fun cast :: "dtype \<Rightarrow> rat \<Rightarrow> rat" where
  "cast f32 v = v"
| "cast f64 v = v"
| "cast b8 v = (if v = 0 then 0 else 1)"

definition as :: "dtype \<Rightarrow> array \<Rightarrow> array" where
  "as t a = a\<lparr>elems := map (map_option (cast t)) (elems a)\<rparr>"

text \<open>\<open>a.host(p)\<close>: the elements of \<open>a\<close> are copied to host memory from \<open>p\<close> on.\<close>

definition host :: "array \<Rightarrow> nat \<Rightarrow> host_mem \<Rightarrow> host_mem" where
  "host a p st =
     st\<lparr>bufs := (bufs st)[p := elems a @ drop (length (elems a)) (bufs st ! p)]\<rparr>"

section \<open>The converters of af\_helpers.cpp\<close>

text \<open>
  Modelled from the spec: the macro \<open>MSG\<close> of af\_helpers.hpp, a header that is not among
  the sources. The spec has the two conditions of \<open>array_to_mat\<close> reported; the report is
  the message added to \<open>msgs\<close>, after which the call goes on.
\<close>

definition MSG :: "string \<Rightarrow> host_mem \<Rightarrow> host_mem" where
  "MSG s st = st\<lparr>msgs := msgs st @ [s]\<rparr>"

text \<open>
  \<open>mat_to_array_\<close> of the source, written \<open>mat_to_array'\<close>: it takes its input by
  reference and converts it in place, so the header it leaves is returned with the array.
\<close>

definition mat_to_array' :: "(rat \<Rightarrow> rat) \<Rightarrow> mat \<Rightarrow> host_mem \<Rightarrow> host_mem \<times> mat \<times> array" where
  "mat_to_array' rnd input st =
     (let w = cols input; h = rows input in
      if channels input = 1 then
        let (st1, input1) = convertTo rnd CV_32F input st
        in (st1, input1, T (array_host w h (ptr input1 st1)))
      else if channels input = 3 then
        let (st1, input1) = convertTo rnd CV_32FC3 input st;
            (st2, rgb) = split input1 st1;
            output0 = array_new h w 3;
            output1 = assign_plane output0 0 (T (array_host w h (ptr (rgb ! 2) st2)));
            output2 = assign_plane output1 1 (T (array_host w h (ptr (rgb ! 1) st2)));
            output3 = assign_plane output2 2 (T (array_host w h (ptr (rgb ! 0) st2)))
        in (st2, input1, output3)
      else
        let (st1, input1) = convertTo rnd CV_32FC2 input st;
            (st2, gb) = split input1 st1;
            output0 = array_new h w 2;
            output1 = assign_plane output0 0 (T (array_host w h (ptr (gb ! 1) st2)));
            output2 = assign_plane output1 1 (T (array_host w h (ptr (gb ! 0) st2)))
        in (st2, input1, output2))"

text \<open>
  The two public overloads: \<open>mat_to_array_out\<close> writes the array given by reference,
  \<open>mat_to_array\<close> returns a new one.
\<close>

definition mat_to_array_out :: "(rat \<Rightarrow> rat) \<Rightarrow> mat \<Rightarrow> array \<Rightarrow> host_mem \<Rightarrow> host_mem \<times> array" where
  "mat_to_array_out rnd input output st =
     (let (st1, tmp) = clone input st;
          (st2, tmp', output') = mat_to_array' rnd tmp st1
      in (st2, output'))"

definition mat_to_array :: "(rat \<Rightarrow> rat) \<Rightarrow> mat \<Rightarrow> host_mem \<Rightarrow> host_mem \<times> array" where
  "mat_to_array rnd input st =
     (let (st1, mtmp) = clone input st;
          (st2, mtmp', output) = mat_to_array' rnd mtmp st1
      in (st2, output))"

text \<open>\<open>array_to_mat\<close> with the output matrix given by reference.\<close>

definition array_to_mat :: "array \<Rightarrow> mat \<Rightarrow> int \<Rightarrow> host_mem \<Rightarrow> host_mem \<times> mat" where
  "array_to_mat input output type st =
     (if d2 input \<noteq> 1 then (MSG ''array_to_mat: input must be 1 channel.'' st, output)
      else
        let (st1, output1) = Mat_new (d0 input) (d1 input) type st in
        if type = CV_32F then (host (T input) (data output1) st1, output1)
        else if type = CV_64F then (host (as f64 (T input)) (data output1) st1, output1)
        else if type = CV_8U then (host (as b8 (T input)) (data output1) st1, output1)
        else (MSG ''array_to_mat: invalid conversion'' st1, output1))"

section \<open>thrust::detail::device::cuda::free\<close>

text \<open>
  Device memory as the set of live allocations. \<open>cudaFree\<close> releases a live allocation
  and fails on any other pointer but the null pointer. The body of \<open>free\<close> stands between
  \<open>#if 0\<close> and \<open>#endif\<close>, so the conditional of the model never takes it.
\<close>

datatype cudaError = cudaErrorInvalidDevicePointer

definition cudaFree :: "nat \<Rightarrow> nat set \<Rightarrow> cudaError + nat set" where
  "cudaFree p live =
     (if p = 0 then Inr live
      else if p \<in> live then Inr (live - {p})
      else Inl cudaErrorInvalidDevicePointer)"

definition free :: "nat \<Rightarrow> nat set \<Rightarrow> cudaError + nat set" where
  "free p live = (if (0::nat) \<noteq> 0 then cudaFree p live else Inr live)"

section \<open>Vocabulary of the properties\<close>

text \<open>
  The invariant of a \<open>cv::Mat\<close> of one of the seven element depths: its type code has
  twelve bits, and its buffer holds \<open>rows * cols * channels\<close> cells.
\<close>

definition mat_ok :: "mat \<Rightarrow> host_mem \<Rightarrow> bool" where
  "mat_ok m st \<longleftrightarrow>
     0 \<le> mtype m \<and> mtype m < 4096 \<and> depth m \<noteq> 7 \<and> data m < length (bufs st) \<and>
     length (ptr m st) = rows m * cols m * channels m"

text \<open>
  \<open>widen\<close> is the conversion of a cell to float32 from the depth of \<open>m\<close>. \<open>host_at\<close>
  reads channel \<open>c\<close> of the pixel in row \<open>y\<close> and column \<open>x\<close> of a host image, and \<open>elem\<close>
  reads the element \<open>(i, j, k)\<close> of a device array. \<open>plane\<close> is the storage of plane \<open>k\<close>
  of a device array, \<open>host_channel\<close> the row-major storage of channel \<open>c\<close> of a host
  image, and \<open>transposed\<close> lists channel \<open>c\<close> of a host image, widened, column by column.
\<close>

definition widen :: "(rat \<Rightarrow> rat) \<Rightarrow> mat \<Rightarrow> cell \<Rightarrow> cell" where
  "widen rnd m = map_option (saturate_cast_float rnd (depth m))"

definition host_at :: "mat \<Rightarrow> host_mem \<Rightarrow> nat \<Rightarrow> nat \<Rightarrow> nat \<Rightarrow> cell" where
  "host_at m st y x c = ptr m st ! ((y * cols m + x) * channels m + c)"

definition elem :: "array \<Rightarrow> nat \<Rightarrow> nat \<Rightarrow> nat \<Rightarrow> cell" where
  "elem a i j k = elems a ! (i + j * d0 a + k * (d0 a * d1 a))"

definition plane :: "array \<Rightarrow> nat \<Rightarrow> cell list" where
  "plane a k = take (d0 a * d1 a) (drop (k * (d0 a * d1 a)) (elems a))"

definition transposed :: "(rat \<Rightarrow> rat) \<Rightarrow> mat \<Rightarrow> host_mem \<Rightarrow> nat \<Rightarrow> cell list" where
  "transposed rnd m st c =
     map (\<lambda>k. widen rnd m (host_at m st (k mod rows m) (k div rows m) c)) [0..<rows m * cols m]"

definition host_channel :: "mat \<Rightarrow> host_mem \<Rightarrow> nat \<Rightarrow> cell list" where
  "host_channel m st c = plane_of (rows m * cols m) (channels m) c (ptr m st)"

text \<open>The elements and the number of planes that each branch of \<open>mat_to_array_\<close> leaves.\<close>

definition layout :: "(rat \<Rightarrow> rat) \<Rightarrow> mat \<Rightarrow> host_mem \<Rightarrow> cell list" where
  "layout rnd m st =
     (if channels m = 1 then transposed rnd m st 0
      else if channels m = 3 then transposed rnd m st 2 @ transposed rnd m st 1 @ transposed rnd m st 0
      else transposed rnd m st 1 @ transposed rnd m st 0)"

definition planes :: "mat \<Rightarrow> nat" where
  "planes m = (if channels m = 1 then 1 else if channels m = 3 then 3 else 2)"

text \<open>
  The round trip of an image: to the device with \<open>mat_to_array\<close> and back into \<open>output\<close>
  with \<open>array_to_mat\<close> and the element type \<open>type\<close>.
\<close>

definition round_trip :: "(rat \<Rightarrow> rat) \<Rightarrow> mat \<Rightarrow> mat \<Rightarrow> int \<Rightarrow> host_mem \<Rightarrow> host_mem \<times> mat" where
  "round_trip rnd m output type st =
     (let (st1, a) = mat_to_array rnd m st in array_to_mat a output type st1)"

section \<open>Concrete images and arrays\<close>

text \<open>
  A host memory of one buffer of four cells, read as a 2\<times>2 image of one channel (of
  8-bit, 16-bit or float32 samples), as a row of four pixels, as a row of two pixels of
  two channels and as one pixel of four channels; and one pixel of three channels, with
  the values 10, 20 and 30.
\<close>

definition mem4 :: host_mem where
  "mem4 = \<lparr>bufs = [[Some 1, Some 2, Some 3, Some 4]], msgs = []\<rparr>"

definition gray_2x2 :: mat where
  "gray_2x2 = \<lparr>rows = 2, cols = 2, mtype = CV_8U, data = 0\<rparr>"

definition short_2x2 :: mat where
  "short_2x2 = \<lparr>rows = 2, cols = 2, mtype = CV_16U, data = 0\<rparr>"

definition float_2x2 :: mat where
  "float_2x2 = \<lparr>rows = 2, cols = 2, mtype = CV_32F, data = 0\<rparr>"

definition gray_1x4 :: mat where
  "gray_1x4 = \<lparr>rows = 1, cols = 4, mtype = CV_8U, data = 0\<rparr>"

definition pair_1x2 :: mat where
  "pair_1x2 = \<lparr>rows = 1, cols = 2, mtype = CV_MAKETYPE CV_8U 2, data = 0\<rparr>"

definition quad_1x1 :: mat where
  "quad_1x1 = \<lparr>rows = 1, cols = 1, mtype = CV_MAKETYPE CV_8U 4, data = 0\<rparr>"

definition mem_bgr :: host_mem where
  "mem_bgr = \<lparr>bufs = [[Some 10, Some 20, Some 30]], msgs = []\<rparr>"

definition pixel_bgr :: mat where
  "pixel_bgr = \<lparr>rows = 1, cols = 1, mtype = CV_MAKETYPE CV_8U 3, data = 0\<rparr>"

text \<open>A device array of three planes and one of a single plane.\<close>

definition three_planes :: array where
  "three_planes = \<lparr>d0 = 1, d1 = 1, d2 = 3, elems = [Some 30, Some 20, Some 10]\<rparr>"

definition one_plane :: array where
  "one_plane = \<lparr>d0 = 2, d1 = 2, d2 = 1, elems = [Some 1, Some 3, Some 2, Some 4]\<rparr>"

text \<open>The rounding to float32 where no rounding is needed: the identity.\<close>

definition exact :: "rat \<Rightarrow> rat" where
  "exact v = v"

section \<open>Facts about the operations\<close>

lemma sat_float_32F: "saturate_cast_float rnd CV_32F v = v"
  by (simp add: saturate_cast_float_def CV_32F_def CV_32S_def CV_64F_def)

lemma channels_MAKETYPE: "channels (m\<lparr>mtype := CV_MAKETYPE t (channels m), data := a\<rparr>) = channels m"
  by (simp add: channels_def CV_MAKETYPE_def)

lemma depth_MAKETYPE: "depth (m\<lparr>mtype := CV_MAKETYPE t cn, data := a\<rparr>) = t mod 8"
proof -
  have "(t mod 8 + 8 * (int cn - 1)) mod 8 = t mod 8" by presburger
  then show ?thesis by (simp add: depth_def CV_MAKETYPE_def)
qed

lemma convertTo_props:
  assumes "convertTo rnd rtype m st = (st1, m1)" and "rtype mod 8 = CV_32F"
    and "data m < length (bufs st)"
  shows "ptr m1 st1 = map (map_option (saturate_cast_float rnd (depth m))) (ptr m st)"
    and "rows m1 = rows m" and "cols m1 = cols m" and "channels m1 = channels m"
    and "depth m1 = CV_32F" and "msgs st1 = msgs st"
    and "take (length (bufs st)) (bufs st1) = bufs st"
    and "data m1 < length (bufs st1)"
proof -
  show "ptr m1 st1 = map (map_option (saturate_cast_float rnd (depth m))) (ptr m st)"
  proof (cases "depth m = rtype mod 8")
    case True
    then have "depth m = CV_32F" using assms(2) by simp
    then have "map (map_option (saturate_cast_float rnd (depth m))) (ptr m st) = ptr m st"
      by (simp add: sat_float_32F [abs_def] option.map_ident map_idI)
    then show ?thesis using assms(1) True by (simp add: convertTo_def)
  next
    case False
    then show ?thesis using assms(1)
      by (auto simp: convertTo_def alloc_def ptr_def)
  qed
  show "rows m1 = rows m" "cols m1 = cols m" "msgs st1 = msgs st"
    "take (length (bufs st)) (bufs st1) = bufs st"
    using assms(1) by (auto simp: convertTo_def alloc_def split: if_splits)
  show "channels m1 = channels m"
    using assms(1) by (auto simp: convertTo_def alloc_def channels_MAKETYPE split: if_splits)
  show "depth m1 = CV_32F"
    using assms(1,2) by (auto simp: convertTo_def alloc_def depth_MAKETYPE split: if_splits)
  show "data m1 < length (bufs st1)"
    using assms(1,3) by (auto simp: convertTo_def alloc_def split: if_splits)
qed

lemma split_props:
  assumes "split m st = (st2, ps)"
  shows "length ps = channels m"
    and "c < channels m \<Longrightarrow> ptr (ps ! c) st2 = plane_of (rows m * cols m) (channels m) c (ptr m st)"
    and "msgs st2 = msgs st" and "take (length (bufs st)) (bufs st2) = bufs st"
  using assms by (auto simp: split_def Let_def ptr_def nth_append)

lemma T_index:
  fixes k h w :: nat
  assumes "k < h * w"
  shows "k div h + (k mod h) * w < w * h"
proof -
  from assms have h: "0 < h" by (cases h) auto
  have "k div h < w" using assms h by (simp add: less_mult_imp_div_less mult.commute)
  moreover have "k mod h < h" using h by simp
  then have "k mod h + 1 \<le> h" by simp
  then have "(k mod h + 1) * w \<le> h * w" by (rule mult_le_mono1)
  ultimately show ?thesis by (simp add: algebra_simps)
qed

lemma T_array_host:
  assumes "w * h \<le> length p"
  shows "elems (T (array_host w h p)) = map (\<lambda>k. p ! (k div h + (k mod h) * w)) [0..<h * w]"
    and "d0 (T (array_host w h p)) = h" and "d1 (T (array_host w h p)) = w"
    and "d2 (T (array_host w h p)) = 1"
  using assms by (auto simp: T_def array_host_def mult.commute [of h w] T_index)


lemma assign_plane_dims:
  "d0 (assign_plane a k x) = d0 a" "d1 (assign_plane a k x) = d1 a" "d2 (assign_plane a k x) = d2 a"
  by (simp_all add: assign_plane_def Let_def)

lemma assign3:
  assumes "length (elems x) = h * w" "length (elems y) = h * w" "length (elems z) = h * w"
  shows "elems (assign_plane (assign_plane (assign_plane (array_new h w 3) 0 x) 1 y) 2 z)
         = elems x @ elems y @ elems z"
  using assms by (simp add: assign_plane_def array_new_def Let_def)

lemma assign2:
  assumes "length (elems x) = h * w" "length (elems y) = h * w"
  shows "elems (assign_plane (assign_plane (array_new h w 2) 0 x) 1 y) = elems x @ elems y"
  using assms by (simp add: assign_plane_def array_new_def Let_def)

lemma plane_index:
  fixes p n cn c :: nat
  assumes "p < n" "c < cn"
  shows "p * cn + c < n * cn"
proof -
  have "p * cn + c < p * cn + cn" using assms(2) by simp
  also have "\<dots> = (p + 1) * cn" by simp
  also have "\<dots> \<le> n * cn" using assms(1) by (intro mult_le_mono1) simp
  finally show ?thesis .
qed

lemma T_plane:
  assumes "length xs = h * w * cn" "c < cn"
  shows "elems (T (array_host w h (plane_of (h * w) cn c (map f xs))))
         = map (\<lambda>k. f (xs ! (((k mod h) * w + k div h) * cn + c))) [0..<h * w]"
proof -
  have len: "w * h \<le> length (plane_of (h * w) cn c (map f xs))"
    by (simp add: plane_of_def mult.commute)
  have "elems (T (array_host w h (plane_of (h * w) cn c (map f xs))))
        = map (\<lambda>k. plane_of (h * w) cn c (map f xs) ! (k div h + (k mod h) * w)) [0..<h * w]"
    by (rule T_array_host(1) [OF len])
  also have "\<dots> = map (\<lambda>k. f (xs ! (((k mod h) * w + k div h) * cn + c))) [0..<h * w]"
  proof (rule map_cong [OF refl])
    fix k assume "k \<in> set [0..<h * w]"
    then have k: "k < h * w" by simp
    then have p: "k div h + (k mod h) * w < h * w" using T_index [OF k] by (simp add: mult.commute)
    have q: "(k div h + (k mod h) * w) * cn + c < length xs"
      using plane_index [OF p assms(2)] assms(1) by simp
    show "plane_of (h * w) cn c (map f xs) ! (k div h + (k mod h) * w)
          = f (xs ! (((k mod h) * w + k div h) * cn + c))"
      using p q by (simp add: plane_of_def add.commute)
  qed
  finally show ?thesis .
qed

lemma transposed_eq:
  "transposed rnd m st c =
     map (\<lambda>k. widen rnd m (ptr m st ! (((k mod rows m) * cols m + k div rows m) * channels m + c)))
       [0..<rows m * cols m]"
  by (simp add: transposed_def host_at_def)


lemma plane_of_single: "length ys = n \<Longrightarrow> plane_of n 1 0 ys = ys"
  using map_nth [of ys] by (simp add: plane_of_def)

lemma rtype_depths: "CV_32F mod 8 = CV_32F" "CV_32FC2 mod 8 = CV_32F" "CV_32FC3 mod 8 = CV_32F"
  by (simp_all add: CV_32F_def CV_32FC2_def CV_32FC3_def CV_MAKETYPE_def)

lemma take_take_bufs:
  assumes "take n ys = xs" "take (length ys) zs = ys" "n = length xs"
  shows "take (length xs) zs = xs"
proof -
  have "length xs \<le> length ys" using assms(1) by (metis length_take min.cobounded1)
  then have "take (length xs) zs = take (length xs) (take (length ys) zs)" by simp
  also have "\<dots> = xs" using assms by simp
  finally show ?thesis .
qed

lemma mat_to_array'_1:
  assumes run: "mat_to_array' rnd m st = (st', m', out)"
    and ok: "data m < length (bufs st)" "length (ptr m st) = rows m * cols m * channels m"
    and ch: "channels m = 1"
  shows "d0 out = rows m \<and> d1 out = cols m \<and> d2 out = 1 \<and> elems out = transposed rnd m st 0
         \<and> msgs st' = msgs st \<and> take (length (bufs st)) (bufs st') = bufs st"
proof -
  obtain st1 m1 where c: "convertTo rnd CV_32F m st = (st1, m1)" by (cases "convertTo rnd CV_32F m st")
  note cp = convertTo_props [OF c rtype_depths(1) ok(1)]
  let ?f = "map_option (saturate_cast_float rnd (depth m))"
  have "(st', m', out) = (st1, m1, T (array_host (cols m) (rows m) (ptr m1 st1)))"
    using run [symmetric] c ch by (simp add: mat_to_array'_def Let_def)
  then have out: "out = T (array_host (cols m) (rows m) (ptr m1 st1))" and st': "st' = st1"
    by simp_all
  have len: "length (ptr m st) = rows m * cols m * 1" using ok(2) ch by simp
  have "plane_of (rows m * cols m) 1 0 (map ?f (ptr m st)) = map ?f (ptr m st)"
    by (rule plane_of_single) (simp add: len)
  then have "ptr m1 st1 = plane_of (rows m * cols m) 1 0 (map ?f (ptr m st))"
    using cp(1) by simp
  then have "elems out = map (\<lambda>k. ?f (ptr m st ! (((k mod rows m) * cols m + k div rows m) * 1 + 0)))
       [0..<rows m * cols m]"
    unfolding out using T_plane [OF len, of 0 ?f] by simp
  then have e: "elems out = transposed rnd m st 0"
    by (simp add: transposed_eq ch widen_def)
  have l: "cols m * rows m \<le> length (ptr m1 st1)" using cp(1) len by (simp add: mult.commute)
  show ?thesis using e T_array_host(2-4) [OF l] cp(6,7) by (simp add: out st')
qed

lemma mat_to_array'_3:
  assumes run: "mat_to_array' rnd m st = (st', m', out)"
    and ok: "data m < length (bufs st)" "length (ptr m st) = rows m * cols m * channels m"
    and ch: "channels m = 3"
  shows "d0 out = rows m \<and> d1 out = cols m \<and> d2 out = 3
         \<and> elems out = transposed rnd m st 2 @ transposed rnd m st 1 @ transposed rnd m st 0
         \<and> msgs st' = msgs st \<and> take (length (bufs st)) (bufs st') = bufs st"
proof -
  obtain st1 m1 where c: "convertTo rnd CV_32FC3 m st = (st1, m1)"
    by (cases "convertTo rnd CV_32FC3 m st")
  note cp = convertTo_props [OF c rtype_depths(3) ok(1)]
  obtain st2 rgb where s: "split m1 st1 = (st2, rgb)" by (cases "split m1 st1")
  note sp = split_props [OF s]
  let ?f = "map_option (saturate_cast_float rnd (depth m))"
  let ?P = "\<lambda>c. T (array_host (cols m) (rows m) (ptr (rgb ! c) st2))"
  have "(st', m', out) = (st2, m1, assign_plane (assign_plane (assign_plane
            (array_new (rows m) (cols m) 3) 0 (?P 2)) 1 (?P 1)) 2 (?P 0))"
    using run [symmetric] c s ch by (simp add: mat_to_array'_def Let_def)
  then have out: "out = assign_plane (assign_plane (assign_plane (array_new (rows m) (cols m) 3)
                 0 (?P 2)) 1 (?P 1)) 2 (?P 0)" and st': "st' = st2"
    by simp_all
  have len: "length (ptr m st) = rows m * cols m * 3" using ok(2) ch by simp
  have P: "elems (?P c) = transposed rnd m st c" if "c < 3" for c
  proof -
    have "ptr (rgb ! c) st2 = plane_of (rows m * cols m) 3 c (map ?f (ptr m st))"
      using sp(2) [of c] that cp ch by simp
    then show ?thesis
      using T_plane [OF len that, of ?f] by (simp add: transposed_eq ch widen_def)
  qed
  have L: "length (transposed rnd m st c) = rows m * cols m" for c
    by (simp add: transposed_def)
  have e: "elems out = transposed rnd m st 2 @ transposed rnd m st 1 @ transposed rnd m st 0"
    unfolding out using assign3 [of "?P 2" "rows m" "cols m" "?P 1" "?P 0"] P L by simp
  have fr: "take (length (bufs st)) (bufs st') = bufs st"
    unfolding st' by (rule take_take_bufs [OF cp(7) sp(4) refl])
  show ?thesis using e fr cp(6) sp(3)
    by (simp add: out st' assign_plane_dims array_new_def)
qed


lemma channels_pos: "1 \<le> channels m"
  by (simp add: channels_def)

lemma mat_to_array'_else:
  assumes run: "mat_to_array' rnd m st = (st', m', out)"
    and ok: "data m < length (bufs st)" "length (ptr m st) = rows m * cols m * channels m"
    and ch: "channels m \<noteq> 1" "channels m \<noteq> 3"
  shows "d0 out = rows m \<and> d1 out = cols m \<and> d2 out = 2
         \<and> elems out = transposed rnd m st 1 @ transposed rnd m st 0
         \<and> msgs st' = msgs st \<and> take (length (bufs st)) (bufs st') = bufs st"
proof -
  obtain st1 m1 where c: "convertTo rnd CV_32FC2 m st = (st1, m1)"
    by (cases "convertTo rnd CV_32FC2 m st")
  note cp = convertTo_props [OF c rtype_depths(2) ok(1)]
  obtain st2 gb where s: "split m1 st1 = (st2, gb)" by (cases "split m1 st1")
  note sp = split_props [OF s]
  let ?f = "map_option (saturate_cast_float rnd (depth m))"
  let ?P = "\<lambda>c. T (array_host (cols m) (rows m) (ptr (gb ! c) st2))"
  have "(st', m', out) = (st2, m1, assign_plane (assign_plane
            (array_new (rows m) (cols m) 2) 0 (?P 1)) 1 (?P 0))"
    using run [symmetric] c s ch by (simp add: mat_to_array'_def Let_def)
  then have out: "out = assign_plane (assign_plane (array_new (rows m) (cols m) 2) 0 (?P 1)) 1 (?P 0)"
    and st': "st' = st2"
    by simp_all
  have two: "2 \<le> channels m" using channels_pos [of m] ch(1) by simp
  have P: "elems (?P c) = transposed rnd m st c" if "c < 2" for c
  proof -
    have cc: "c < channels m" using that two by simp
    have "ptr (gb ! c) st2 = plane_of (rows m * cols m) (channels m) c (map ?f (ptr m st))"
      using sp(2) [of c] cc cp by simp
    then show ?thesis
      using T_plane [OF ok(2) cc, of ?f] by (simp add: transposed_eq widen_def)
  qed
  have L: "length (transposed rnd m st c) = rows m * cols m" for c
    by (simp add: transposed_def)
  have e: "elems out = transposed rnd m st 1 @ transposed rnd m st 0"
    unfolding out using assign2 [of "?P 1" "rows m" "cols m" "?P 0"] P L by simp
  have fr: "take (length (bufs st)) (bufs st') = bufs st"
    unfolding st' by (rule take_take_bufs [OF cp(7) sp(4) refl])
  show ?thesis using e fr cp(6) sp(3)
    by (simp add: out st' assign_plane_dims array_new_def)
qed

lemma clone_props:
  assumes "clone m st = (st1, tmp)" "data m < length (bufs st)"
  shows "ptr tmp st1 = ptr m st" "rows tmp = rows m" "cols tmp = cols m" "mtype tmp = mtype m"
    "data tmp < length (bufs st1)" "msgs st1 = msgs st" "take (length (bufs st)) (bufs st1) = bufs st"
  using assms by (auto simp: clone_def alloc_def ptr_def)

lemma transposed_cong:
  assumes "ptr tmp st1 = ptr m st" "rows tmp = rows m" "cols tmp = cols m" "mtype tmp = mtype m"
  shows "transposed rnd tmp st1 c = transposed rnd m st c"
  using assms by (simp add: transposed_def host_at_def widen_def depth_def channels_def)

lemma mat_to_array'_result:
  assumes run: "mat_to_array' rnd m st = (st', m', out)"
    and ok: "data m < length (bufs st)" "length (ptr m st) = rows m * cols m * channels m"
  shows "d0 out = rows m \<and> d1 out = cols m \<and> d2 out = planes m \<and> elems out = layout rnd m st
         \<and> msgs st' = msgs st \<and> take (length (bufs st)) (bufs st') = bufs st"
proof (cases "channels m = 1")
  case True
  then show ?thesis using mat_to_array'_1 [OF run ok] by (simp add: layout_def planes_def)
next
  case n1: False
  show ?thesis
  proof (cases "channels m = 3")
    case True
    then show ?thesis using mat_to_array'_3 [OF run ok] by (simp add: layout_def planes_def)
  next
    case False
    then show ?thesis using mat_to_array'_else [OF run ok n1] n1 by (simp add: layout_def planes_def)
  qed
qed

lemma layout_cong:
  assumes "ptr tmp st1 = ptr m st" "rows tmp = rows m" "cols tmp = cols m" "mtype tmp = mtype m"
  shows "layout rnd tmp st1 = layout rnd m st"
  using transposed_cong [OF assms] assms(4) by (simp add: layout_def channels_def)

lemma mat_to_array_result:
  assumes run: "mat_to_array rnd m st = (st', out)" and ok: "mat_ok m st"
  shows "d0 out = rows m \<and> d1 out = cols m \<and> d2 out = planes m \<and> elems out = layout rnd m st
         \<and> msgs st' = msgs st \<and> take (length (bufs st)) (bufs st') = bufs st"
proof -
  have d: "data m < length (bufs st)" and l: "length (ptr m st) = rows m * cols m * channels m"
    using ok by (simp_all add: mat_ok_def)
  obtain st1 tmp where c: "clone m st = (st1, tmp)" by (cases "clone m st")
  note cl = clone_props [OF c d]
  obtain st2 tmp' out' where r: "mat_to_array' rnd tmp st1 = (st2, tmp', out')"
    by (cases "mat_to_array' rnd tmp st1")
  have "(st', out) = (st2, out')"
    using run [symmetric] c r by (simp add: mat_to_array_def)
  then have eq: "st' = st2" "out = out'" by simp_all
  have ch: "channels tmp = channels m" using cl(4) by (simp add: channels_def)
  have l': "length (ptr tmp st1) = rows tmp * cols tmp * channels tmp"
    using cl l ch by simp
  note res = mat_to_array'_result [OF r cl(5) l']
  have fr: "take (length (bufs st)) (bufs st2) = bufs st"
    using res cl(7) by (intro take_take_bufs [OF cl(7) _ refl]) simp
  show ?thesis
    using res fr cl layout_cong [OF cl(1-4), of rnd] ch by (simp add: eq planes_def)
qed

lemma idx_lt:
  fixes i j h w :: nat
  assumes "i < h" "j < w"
  shows "i + j * h < h * w"
proof -
  have "i + j * h < (j + 1) * h" using assms(1) by simp
  also have "\<dots> \<le> w * h" using assms(2) by (intro mult_le_mono1) simp
  finally show ?thesis by (simp add: mult.commute)
qed

lemma transposed_nth:
  assumes "i < rows m" "j < cols m"
  shows "transposed rnd m st c ! (i + j * rows m) = widen rnd m (host_at m st i j c)"
  using idx_lt [OF assms] assms by (simp add: transposed_def)

lemma length_transposed: "length (transposed rnd m st c) = rows m * cols m"
  by (simp add: transposed_def)

lemma transposed_as_T:
  assumes "length (ptr m st) = rows m * cols m * channels m" "c < channels m"
  shows "elems (T (array_host (cols m) (rows m) (map (widen rnd m) (host_channel m st c))))
         = transposed rnd m st c"
proof -
  have "map (widen rnd m) (host_channel m st c)
        = plane_of (rows m * cols m) (channels m) c (map (widen rnd m) (ptr m st))"
    using assms plane_index [of _ "rows m * cols m" c "channels m"]
    by (simp add: host_channel_def plane_of_def)
  then show ?thesis
    using T_plane [OF assms, of "widen rnd m"] by (simp add: transposed_eq)
qed

lemma plane_0: "length p = d0 a * d1 a \<Longrightarrow> elems a = p @ r \<Longrightarrow> plane a 0 = p"
  by (simp add: plane_def)

lemma plane_1:
  "length p = d0 a * d1 a \<Longrightarrow> length q = d0 a * d1 a \<Longrightarrow> elems a = p @ q @ r \<Longrightarrow> plane a 1 = q"
  by (simp add: plane_def)

lemma plane_2:
  "length p = d0 a * d1 a \<Longrightarrow> length q = d0 a * d1 a \<Longrightarrow> length r = d0 a * d1 a \<Longrightarrow>
   elems a = p @ q @ r @ s \<Longrightarrow> plane a 2 = r"
  by (simp add: plane_def)

lemma elem_plane:
  assumes "i < d0 a" "j < d1 a" "(k + 1) * (d0 a * d1 a) \<le> length (elems a)"
  shows "elem a i j k = plane a k ! (i + j * d0 a)"
proof -
  have "i + j * d0 a < d0 a * d1 a" using idx_lt [OF assms(1,2)] .
  then show ?thesis using assms(3) by (simp add: elem_def plane_def add.commute)
qed

lemma planes_of_three:
  assumes "d0 out = rows m" "d1 out = cols m"
    "elems out = transposed rnd m st a @ transposed rnd m st b @ transposed rnd m st c"
  shows "plane out 0 = transposed rnd m st a" "plane out 1 = transposed rnd m st b"
    "plane out 2 = transposed rnd m st c"
proof -
  show "plane out 0 = transposed rnd m st a"
    by (rule plane_0 [OF _ assms(3)]) (simp add: length_transposed assms)
  show "plane out 1 = transposed rnd m st b"
    by (rule plane_1 [OF _ _ assms(3)]) (simp_all add: length_transposed assms)
  have "elems out = transposed rnd m st a @ transposed rnd m st b @ transposed rnd m st c @ []"
    using assms(3) by simp
  then show "plane out 2 = transposed rnd m st c"
    by (rule plane_2 [rotated 3]) (simp_all add: length_transposed assms)
qed

lemma planes_of_two:
  assumes "d0 out = rows m" "d1 out = cols m"
    "elems out = transposed rnd m st a @ transposed rnd m st b"
  shows "plane out 0 = transposed rnd m st a" "plane out 1 = transposed rnd m st b"
proof -
  show "plane out 0 = transposed rnd m st a"
    by (rule plane_0 [OF _ assms(3)]) (simp add: length_transposed assms)
  have "elems out = transposed rnd m st a @ transposed rnd m st b @ []"
    using assms(3) by simp
  then show "plane out 1 = transposed rnd m st b"
    by (rule plane_1 [rotated 2]) (simp_all add: length_transposed assms)
qed

lemma elem_of_plane:
  assumes "d0 out = rows m" "d1 out = cols m" "plane out k = transposed rnd m st c"
    "(k + 1) * (rows m * cols m) \<le> length (elems out)" "i < rows m" "j < cols m"
  shows "elem out i j k = widen rnd m (host_at m st i j c)"
proof -
  have "(k + 1) * (d0 out * d1 out) \<le> length (elems out)"
    using assms(4) by (simp only: assms(1,2))
  then have "elem out i j k = plane out k ! (i + j * d0 out)"
    by (intro elem_plane) (simp_all only: assms)
  then show ?thesis using assms transposed_nth [of i m j rnd st c] by simp
qed

lemma plane_of_one:
  assumes "d0 out = rows m" "d1 out = cols m" "elems out = transposed rnd m st a"
  shows "plane out 0 = transposed rnd m st a"
proof -
  have "elems out = transposed rnd m st a @ []" using assms(3) by simp
  then show ?thesis by (rule plane_0 [rotated]) (simp add: length_transposed assms)
qed

lemma mat_to_array_planes:
  assumes run: "mat_to_array rnd m st = (st', out)" and ok: "mat_ok m st"
  shows "d0 out = rows m" and "d1 out = cols m" and "d2 out = planes m"
    and "length (elems out) = planes m * (rows m * cols m)"
    and "channels m = 1 \<Longrightarrow> plane out 0 = transposed rnd m st 0"
    and "channels m = 3 \<Longrightarrow> plane out 0 = transposed rnd m st 2 \<and>
           plane out 1 = transposed rnd m st 1 \<and> plane out 2 = transposed rnd m st 0"
    and "channels m \<noteq> 1 \<Longrightarrow> channels m \<noteq> 3 \<Longrightarrow>
           plane out 0 = transposed rnd m st 1 \<and> plane out 1 = transposed rnd m st 0"
    and "msgs st' = msgs st" and "take (length (bufs st)) (bufs st') = bufs st"
proof -
  note r = mat_to_array_result [OF run ok]
  show dims: "d0 out = rows m" "d1 out = cols m" and "d2 out = planes m"
    and "msgs st' = msgs st" and "take (length (bufs st)) (bufs st') = bufs st"
    using r by simp_all
  have e: "elems out = layout rnd m st" using r by simp
  show "length (elems out) = planes m * (rows m * cols m)"
    by (simp add: e layout_def planes_def length_transposed)
  show "plane out 0 = transposed rnd m st 0" if "channels m = 1"
    using plane_of_one [OF dims, of rnd st 0] e that by (simp add: layout_def)
  show "plane out 0 = transposed rnd m st 2 \<and>
        plane out 1 = transposed rnd m st 1 \<and> plane out 2 = transposed rnd m st 0"
    if "channels m = 3"
    using planes_of_three [OF dims, of rnd st 2 1 0] e that by (simp add: layout_def)
  show "plane out 0 = transposed rnd m st 1 \<and> plane out 1 = transposed rnd m st 0"
    if "channels m \<noteq> 1" "channels m \<noteq> 3"
    using planes_of_two [OF dims, of rnd st 1 0] e that by (simp add: layout_def)
qed

lemma planes_le:
  fixes k n p :: nat
  assumes "k < p"
  shows "(k + 1) * n \<le> p * n"
  using assms by (intro mult_le_mono1) simp

lemma mat_to_array_out_eq: "mat_to_array_out rnd input output st = mat_to_array rnd input st"
  by (simp add: mat_to_array_out_def mat_to_array_def split: prod.splits)

lemma take_nth_same:
  assumes "take n ys = xs" "a < length xs"
  shows "ys ! a = xs ! a"
  using assms by (metis length_take min_less_iff_conj nth_take)

lemma length_T: "length (elems (T a)) = d0 a * d1 a"
  by (simp add: T_def)

lemma Mat_new_eq:
  "Mat_new r c t st =
     (st\<lparr>bufs := bufs st @ [replicate (r * c * (nat (t mod 4096 div 8) + 1)) None]\<rparr>,
      \<lparr>rows = r, cols = c, mtype = t mod 4096, data = length (bufs st)\<rparr>)"
  by (simp add: Mat_new_def alloc_def Let_def)

lemma host_fresh:
  assumes "length xs = length (elems a)"
  shows "host a (length bs) (st\<lparr>bufs := bs @ [xs]\<rparr>) = st\<lparr>bufs := bs @ [elems a]\<rparr>"
  using assms by (simp add: host_def)

lemma array_to_mat_transfer:
  assumes one: "d2 a = 1"
    and ty: "type = CV_32F \<or> type = CV_64F \<or> type = CV_8U"
    and run: "array_to_mat a output type st = (st', out)"
  shows "rows out = d0 a" and "cols out = d1 a" and "mtype out = type"
    and "data out = length (bufs st)" and "msgs st' = msgs st"
    and "take (length (bufs st)) (bufs st') = bufs st"
    and "ptr out st' = (if type = CV_32F then elems (T a)
                        else if type = CV_64F then elems (as f64 (T a)) else elems (as b8 (T a)))"
proof -
  have t: "type mod 4096 = type" "nat (type div 8) = 0"
    using ty by (auto simp: CV_32F_def CV_64F_def CV_8U_def)
  let ?st1 = "st\<lparr>bufs := bufs st @ [replicate (d1 a * d0 a) None]\<rparr>"
  let ?o1 = "\<lparr>rows = d0 a, cols = d1 a, mtype = type, data = length (bufs st)\<rparr>"
  have mn: "Mat_new (d0 a) (d1 a) type st = (?st1, ?o1)"
    by (simp add: Mat_new_eq t mult.commute)
  have h: "host x (length (bufs st)) ?st1 = st\<lparr>bufs := bufs st @ [elems x]\<rparr>"
    if "length (elems x) = d0 a * d1 a" for x
    using host_fresh [of "replicate (d1 a * d0 a) None" x "bufs st" st] that by (simp add: mult.commute)
  have l: "length (elems (T a)) = d0 a * d1 a" "length (elems (as f64 (T a))) = d0 a * d1 a"
    "length (elems (as b8 (T a))) = d0 a * d1 a"
    by (simp_all add: as_def length_T)
  have res: "(st', out) =
      (st\<lparr>bufs := bufs st @ [if type = CV_32F then elems (T a)
                        else if type = CV_64F then elems (as f64 (T a)) else elems (as b8 (T a))]\<rparr>, ?o1)"
    using run [symmetric] one ty mn h [OF l(1)] h [OF l(2)] h [OF l(3)]
    by (auto simp: array_to_mat_def CV_32F_def CV_64F_def CV_8U_def)
  then show "rows out = d0 a" "cols out = d1 a" "mtype out = type"
    "data out = length (bufs st)" "msgs st' = msgs st"
    "take (length (bufs st)) (bufs st') = bufs st"
    "ptr out st' = (if type = CV_32F then elems (T a)
                        else if type = CV_64F then elems (as f64 (T a)) else elems (as b8 (T a)))"
    by (auto simp: ptr_def)
qed

lemma channels_masked:
  "nat (t mod 4096 div 8 mod 512) = nat (t mod 4096 div 8)"
proof -
  have "0 \<le> t mod 4096" "t mod 4096 < 4096" by simp_all
  then have "t mod 4096 div 8 < 512" "0 \<le> t mod 4096 div 8" by auto
  then show ?thesis by simp
qed

lemma div_mod_idx:
  fixes k w h :: nat
  assumes "k < h * w"
  shows "k div w < h" and "k mod w < w"
proof -
  from assms have w: "0 < w" by (cases w) auto
  show "k div w < h" using assms w by (simp add: less_mult_imp_div_less)
  show "k mod w < w" using w by simp
qed

lemma T_of_single_plane:
  assumes "d0 a = rows m" "d1 a = cols m" "elems a = transposed rnd m st 0"
    and "channels m = 1" "length (ptr m st) = rows m * cols m"
  shows "elems (T a) = map (widen rnd m) (ptr m st)"
proof -
  have "elems (T a) = map (\<lambda>k. transposed rnd m st 0 ! (k div cols m + (k mod cols m) * rows m))
                        [0..<rows m * cols m]"
    by (simp add: T_def assms(1-3))
  also have "\<dots> = map (\<lambda>k. widen rnd m (ptr m st ! k)) [0..<rows m * cols m]"
  proof (rule map_cong [OF refl])
    fix k assume "k \<in> set [0..<rows m * cols m]"
    then have k: "k < rows m * cols m" by simp
    note b = div_mod_idx [OF k]
    show "transposed rnd m st 0 ! (k div cols m + (k mod cols m) * rows m) = widen rnd m (ptr m st ! k)"
      using transposed_nth [OF b, of rnd st 0] by (simp add: host_at_def assms(4))
  qed
  also have "\<dots> = map (widen rnd m) (map (\<lambda>k. ptr m st ! k) [0..<length (ptr m st)])"
    by (simp add: assms(5))
  also have "\<dots> = map (widen rnd m) (ptr m st)"
    by (simp only: map_nth)
  finally show ?thesis .
qed

lemma as_f64_elems: "elems (as f64 a) = elems a"
proof -
  have "map_option (cast f64) v = v" for v by (cases v) simp_all
  then have "map (map_option (cast f64)) xs = xs" for xs by (simp add: map_idI)
  then show ?thesis by (simp add: as_def)
qed

lemma widen_32F:
  assumes "depth m = CV_32F"
  shows "map (widen rnd m) xs = xs"
proof -
  have "widen rnd m = (\<lambda>v. v)"
    by (rule ext) (simp add: widen_def assms sat_float_32F [abs_def] option.map_ident)
  then show ?thesis by simp
qed

lemma single_channel_type:
  assumes "mat_ok m st" "channels m = 1"
  shows "mtype m = depth m"
proof -
  have r: "0 \<le> mtype m" "mtype m < 4096" using assms(1) by (simp_all add: mat_ok_def)
  then have "0 \<le> mtype m div 8" "mtype m div 8 < 512" by auto
  then have "mtype m div 8 mod 512 = mtype m div 8" by simp
  then have "mtype m div 8 = 0" using assms(2) r by (simp add: channels_def)
  then show ?thesis using r by (simp add: depth_def)
qed

lemma mat_to_array'_converts_its_argument:
  assumes "depth m \<noteq> CV_32F" "mat_to_array' rnd m st = (st', m', out)"
  shows "depth m' = CV_32F \<and> data m' = length (bufs st) \<and> m' \<noteq> m"
proof -
  have d: "depth m \<noteq> t mod 8" if "t mod 8 = CV_32F" for t using assms(1) that by simp
  have "m' = m\<lparr>mtype := CV_MAKETYPE CV_32F (channels m), data := length (bufs st)\<rparr>
      \<or> m' = m\<lparr>mtype := CV_MAKETYPE CV_32FC3 (channels m), data := length (bufs st)\<rparr>
      \<or> m' = m\<lparr>mtype := CV_MAKETYPE CV_32FC2 (channels m), data := length (bufs st)\<rparr>"
    using assms(2) [symmetric] d [OF rtype_depths(1)] d [OF rtype_depths(2)] d [OF rtype_depths(3)]
    by (auto simp: mat_to_array'_def convertTo_def alloc_def Let_def split: prod.splits if_splits)
  then have "depth m' = CV_32F \<and> data m' = length (bufs st)"
    using rtype_depths by (auto simp: depth_MAKETYPE)
  then show ?thesis using assms(1) by auto
qed

section \<open>The claims\<close>

text \<open>
  C1, as the source has it: for every host image of one channel whose samples are float32
  or float64, the round trip with the matching element type gives a matrix of the same
  size and type in which every sample is the float32 conversion of the original one, so
  that a float32 image comes back exactly. The claim does not hold for every depth:
  \<open>array_to_mat\<close> converts to \<open>CV_32F\<close>, \<open>CV_64F\<close> and \<open>CV_8U\<close> only, so an image of 16-bit
  samples gets back an unwritten buffer, and the 8-bit image 1, 2, 3, 4 does not come back
  through \<open>CV_8U\<close> (see C3).
\<close>

theorem C1_float_round_trip:
  assumes ok: "mat_ok m st" and ch: "channels m = 1"
    and fl: "depth m = CV_32F \<or> depth m = CV_64F"
    and run: "round_trip rnd m output (mtype m) st = (st', out)"
  shows "rows out = rows m \<and> cols out = cols m \<and> mtype out = mtype m \<and>
         ptr out st' = map (widen rnd m) (ptr m st) \<and>
         (depth m = CV_32F \<longrightarrow> ptr out st' = ptr m st)"
proof -
  obtain st1 a where h2d: "mat_to_array rnd m st = (st1, a)" by (cases "mat_to_array rnd m st")
  have d2h: "array_to_mat a output (mtype m) st1 = (st', out)"
    using run h2d by (simp add: round_trip_def)
  note r = mat_to_array_result [OF h2d ok]
  have dims: "d0 a = rows m" "d1 a = cols m" and one: "d2 a = 1"
    and e: "elems a = transposed rnd m st 0"
    using r ch by (simp_all add: planes_def layout_def)
  have len: "length (ptr m st) = rows m * cols m" using ok ch by (simp add: mat_ok_def)
  have ty: "mtype m = depth m" using single_channel_type [OF ok ch] .
  have sup: "mtype m = CV_32F \<or> mtype m = CV_64F \<or> mtype m = CV_8U" using fl ty by auto
  note t = array_to_mat_transfer [OF one sup d2h]
  have rt: "elems (T a) = map (widen rnd m) (ptr m st)"
    using T_of_single_plane [OF dims e ch len] .
  have "mtype m \<noteq> CV_8U" using fl ty by (auto simp: CV_32F_def CV_64F_def CV_8U_def)
  then have "ptr out st' = elems (T a)"
    using t(7) sup by (auto simp: as_f64_elems)
  then have p: "ptr out st' = map (widen rnd m) (ptr m st)" using rt by simp
  show ?thesis using t(1-3) dims p widen_32F [of m rnd "ptr m st"] by simp
qed

theorem C1_float_round_trip_witness:
  "mat_ok float_2x2 mem4 \<and> channels float_2x2 = 1 \<and> depth float_2x2 = CV_32F \<and>
   ptr (snd (round_trip exact float_2x2 gray_2x2 (mtype float_2x2) mem4))
       (fst (round_trip exact float_2x2 gray_2x2 (mtype float_2x2) mem4))
     = [Some 1, Some 2, Some 3, Some 4]"
proof -
  have ok: "mat_ok float_2x2 mem4" by code_simp
  have ch: "channels float_2x2 = 1" by code_simp
  have d: "depth float_2x2 = CV_32F" by code_simp
  then have fl: "depth float_2x2 = CV_32F \<or> depth float_2x2 = CV_64F" by simp
  have run: "round_trip exact float_2x2 gray_2x2 (mtype float_2x2) mem4 =
      (fst (round_trip exact float_2x2 gray_2x2 (mtype float_2x2) mem4),
       snd (round_trip exact float_2x2 gray_2x2 (mtype float_2x2) mem4))"
    by simp
  have v: "map (widen exact float_2x2) (ptr float_2x2 mem4) = [Some 1, Some 2, Some 3, Some 4]"
    by code_simp
  show ?thesis using ok ch d C1_float_round_trip [OF ok ch fl run] v by simp
qed

theorem C1_round_trip_counterexample:
  "ptr gray_2x2 mem4 = [Some 1, Some 2, Some 3, Some 4] \<and>
   ptr (snd (round_trip exact gray_2x2 gray_2x2 CV_8U mem4))
       (fst (round_trip exact gray_2x2 gray_2x2 CV_8U mem4)) \<noteq> ptr gray_2x2 mem4 \<and>
   ptr (snd (round_trip exact short_2x2 short_2x2 CV_16U mem4))
       (fst (round_trip exact short_2x2 short_2x2 CV_16U mem4)) \<noteq> ptr short_2x2 mem4"
  by code_simp

text \<open>
  C2: for every host image of three channels, the array that \<open>mat_to_array\<close> returns has
  three planes; plane 0 is the transpose \<open>T\<close> of host channel 2 widened to float32, plane 2
  the transpose of host channel 0 (and plane 1 that of channel 1): the element \<open>(i, j)\<close> of
  a plane is the widened sample of the pixel in row \<open>i\<close> and column \<open>j\<close>. The pixel with
  the channel values 10, 20, 30 gives the planes 30, 20, 10.
\<close>

theorem C2_three_channels_reversed:
  assumes ok: "mat_ok m st" and ch: "channels m = 3" and run: "mat_to_array rnd m st = (st', out)"
  shows "d2 out = 3 \<and>
    plane out 0 = elems (T (array_host (cols m) (rows m) (map (widen rnd m) (host_channel m st 2)))) \<and>
    plane out 1 = elems (T (array_host (cols m) (rows m) (map (widen rnd m) (host_channel m st 1)))) \<and>
    plane out 2 = elems (T (array_host (cols m) (rows m) (map (widen rnd m) (host_channel m st 0)))) \<and>
    (\<forall>i<rows m. \<forall>j<cols m.
       elem out i j 0 = widen rnd m (host_at m st i j 2) \<and>
       elem out i j 1 = widen rnd m (host_at m st i j 1) \<and>
       elem out i j 2 = widen rnd m (host_at m st i j 0))"
proof -
  note r = mat_to_array_planes [OF run ok]
  have d2: "d2 out = 3" using r(3) ch by (simp add: planes_def)
  have p: "plane out 0 = transposed rnd m st 2" "plane out 1 = transposed rnd m st 1"
    "plane out 2 = transposed rnd m st 0"
    using r(6) [OF ch] by simp_all
  have len: "length (ptr m st) = rows m * cols m * channels m" using ok by (simp add: mat_ok_def)
  have t: "elems (T (array_host (cols m) (rows m) (map (widen rnd m) (host_channel m st c))))
           = transposed rnd m st c" if "c < 3" for c
    using transposed_as_T [OF len, of c rnd] that ch by simp
  have le: "(k + 1) * (rows m * cols m) \<le> length (elems out)" if "k < 3" for k
    using planes_le [OF that] r(4) ch by (simp add: planes_def)
  have el: "elem out i j 0 = widen rnd m (host_at m st i j 2) \<and>
            elem out i j 1 = widen rnd m (host_at m st i j 1) \<and>
            elem out i j 2 = widen rnd m (host_at m st i j 0)" if "i < rows m" "j < cols m" for i j
    using elem_of_plane [OF r(1,2) p(1) le that] elem_of_plane [OF r(1,2) p(2) le that]
      elem_of_plane [OF r(1,2) p(3) le that] by simp
  show ?thesis using d2 p t el by simp
qed

theorem C2_three_channels_reversed_witness:
  "mat_ok pixel_bgr mem_bgr \<and> channels pixel_bgr = 3 \<and>
   plane (snd (mat_to_array exact pixel_bgr mem_bgr)) 0 = [Some 30] \<and>
   plane (snd (mat_to_array exact pixel_bgr mem_bgr)) 1 = [Some 20] \<and>
   plane (snd (mat_to_array exact pixel_bgr mem_bgr)) 2 = [Some 10]"
proof -
  let ?T = "\<lambda>c. elems (T (array_host (cols pixel_bgr) (rows pixel_bgr)
           (map (widen exact pixel_bgr) (host_channel pixel_bgr mem_bgr c))))"
  have ok: "mat_ok pixel_bgr mem_bgr" by code_simp
  have ch: "channels pixel_bgr = 3" by code_simp
  have run: "mat_to_array exact pixel_bgr mem_bgr =
      (fst (mat_to_array exact pixel_bgr mem_bgr), snd (mat_to_array exact pixel_bgr mem_bgr))"
    by simp
  have v: "?T 2 = [Some 30]" "?T 1 = [Some 20]" "?T 0 = [Some 10]" by code_simp+
  show ?thesis using ok ch C2_three_channels_reversed [OF ok ch run] v by simp
qed

text \<open>
  C3: the 2\<times>2 image of one channel with the 8-bit values 1, 2, 3, 4 is converted to a
  device plane that, transposed back, holds 1, 2, 3, 4. Converted back with \<open>CV_8U\<close> the
  plane is cast to \<open>b8\<close>, the boolean type, and the host buffer holds 1, 1, 1, 1 rather
  than 1, 2, 3, 4.
\<close>

theorem C3_uint8_round_trip_at_1234:
  "ptr gray_2x2 mem4 = [Some 1, Some 2, Some 3, Some 4] \<and>
   elems (T (snd (mat_to_array exact gray_2x2 mem4))) = [Some 1, Some 2, Some 3, Some 4] \<and>
   ptr (snd (round_trip exact gray_2x2 gray_2x2 CV_8U mem4))
       (fst (round_trip exact gray_2x2 gray_2x2 CV_8U mem4))
     = [Some 1, Some 1, Some 1, Some 1]"
  by code_simp

text \<open>
  C4, as the source has it: for every device buffer whose third dimension is greater than
  1, \<open>array_to_mat\<close> reports that the input must have one channel, as a message and no
  more, and returns; it writes nothing, so the output matrix and every host buffer are
  left as they were. The call does not fail: for the array of three planes it hands the
  caller's matrix back, well formed and with its old pixels, as a call that converted
  would hand back a matrix.
\<close>

theorem C4_multi_plane_reported:
  assumes "1 < d2 input"
  shows "array_to_mat input output type st =
           (st\<lparr>msgs := msgs st @ [''array_to_mat: input must be 1 channel.'']\<rparr>, output)"
  using assms by (simp add: array_to_mat_def MSG_def)

theorem C4_multi_plane_reported_witness:
  "1 < d2 three_planes \<and>
   array_to_mat three_planes gray_2x2 CV_32F mem4 =
     (mem4\<lparr>msgs := msgs mem4 @ [''array_to_mat: input must be 1 channel.'']\<rparr>, gray_2x2)"
proof -
  have h: "1 < d2 three_planes" by (simp add: three_planes_def)
  show ?thesis using h C4_multi_plane_reported [OF h, of gray_2x2 CV_32F mem4] by simp
qed

theorem C4_returns_without_failure_counterexample:
  "snd (array_to_mat three_planes gray_2x2 CV_32F mem4) = gray_2x2 \<and>
   mat_ok (snd (array_to_mat three_planes gray_2x2 CV_32F mem4))
          (fst (array_to_mat three_planes gray_2x2 CV_32F mem4)) \<and>
   ptr (snd (array_to_mat three_planes gray_2x2 CV_32F mem4))
       (fst (array_to_mat three_planes gray_2x2 CV_32F mem4))
     = [Some 1, Some 2, Some 3, Some 4] \<and>
   bufs (fst (array_to_mat three_planes gray_2x2 CV_32F mem4)) = bufs mem4 \<and>
   msgs (fst (array_to_mat three_planes gray_2x2 CV_32F mem4))
     = [''array_to_mat: input must be 1 channel.'']"
  by code_simp

text \<open>
  C5, as the source has it: for every device buffer of one plane and every requested type
  other than \<open>CV_32F\<close>, \<open>CV_64F\<close> and \<open>CV_8U\<close>, \<open>array_to_mat\<close> reports the invalid conversion
  as a message and returns; the output is by then a new matrix of \<open>dims(0)\<close> rows and
  \<open>dims(1)\<close> columns of the requested type, none of whose cells has been written.
\<close>

theorem C5_invalid_type_only_reported:
  assumes one: "d2 input = 1" and ty: "type \<noteq> CV_32F" "type \<noteq> CV_64F" "type \<noteq> CV_8U"
    and run: "array_to_mat input output type st = (st', out)"
  shows "msgs st' = msgs st @ [''array_to_mat: invalid conversion''] \<and>
         rows out = d0 input \<and> cols out = d1 input \<and> mtype out = type mod 4096 \<and>
         data out = length (bufs st) \<and>
         bufs st' = bufs st @ [replicate (d0 input * d1 input * channels out) None]"
proof -
  have "(st', out) =
      (MSG ''array_to_mat: invalid conversion''
         (st\<lparr>bufs := bufs st @
            [replicate (d0 input * d1 input * (nat (type mod 4096 div 8) + 1)) None]\<rparr>),
       \<lparr>rows = d0 input, cols = d1 input, mtype = type mod 4096, data = length (bufs st)\<rparr>)"
    using run [symmetric] one ty by (simp add: array_to_mat_def Mat_new_eq)
  then show ?thesis
    by (simp add: MSG_def channels_def channels_masked)
qed

theorem C5_invalid_type_only_reported_witness:
  "d2 one_plane = 1 \<and> CV_16U \<noteq> CV_32F \<and> CV_16U \<noteq> CV_64F \<and> CV_16U \<noteq> CV_8U \<and>
   msgs (fst (array_to_mat one_plane gray_2x2 CV_16U mem4)) = [''array_to_mat: invalid conversion''] \<and>
   bufs (fst (array_to_mat one_plane gray_2x2 CV_16U mem4)) =
     [[Some 1, Some 2, Some 3, Some 4], [None, None, None, None]]"
proof -
  have one: "d2 one_plane = 1" by code_simp
  have ty: "CV_16U \<noteq> CV_32F" "CV_16U \<noteq> CV_64F" "CV_16U \<noteq> CV_8U" by code_simp+
  have run: "array_to_mat one_plane gray_2x2 CV_16U mem4 =
      (fst (array_to_mat one_plane gray_2x2 CV_16U mem4),
       snd (array_to_mat one_plane gray_2x2 CV_16U mem4))"
    by simp
  have v: "msgs mem4 = []" "bufs mem4 = [[Some 1, Some 2, Some 3, Some 4]]"
    "replicate (d0 one_plane * d1 one_plane *
       channels (snd (array_to_mat one_plane gray_2x2 CV_16U mem4))) (None :: cell)
     = [None, None, None, None]"
    by code_simp+
  show ?thesis using one ty C5_invalid_type_only_reported [OF one ty run] v by simp
qed

theorem C5_unwritten_output_counterexample:
  "snd (array_to_mat one_plane gray_2x2 CV_16U mem4) \<noteq> gray_2x2 \<and>
   rows (snd (array_to_mat one_plane gray_2x2 CV_16U mem4)) = 2 \<and>
   cols (snd (array_to_mat one_plane gray_2x2 CV_16U mem4)) = 2 \<and>
   ptr (snd (array_to_mat one_plane gray_2x2 CV_16U mem4))
       (fst (array_to_mat one_plane gray_2x2 CV_16U mem4)) = [None, None, None, None]"
  by code_simp

text \<open>
  C6: for every host image of two channels, the array that \<open>mat_to_array\<close> returns has
  two planes; plane 0 is the transpose \<open>T\<close> of host channel 1 widened to float32 and plane 1
  the transpose of host channel 0.
\<close>

theorem C6_two_channels_reversed:
  assumes ok: "mat_ok m st" and ch: "channels m = 2" and run: "mat_to_array rnd m st = (st', out)"
  shows "d2 out = 2 \<and>
    plane out 0 = elems (T (array_host (cols m) (rows m) (map (widen rnd m) (host_channel m st 1)))) \<and>
    plane out 1 = elems (T (array_host (cols m) (rows m) (map (widen rnd m) (host_channel m st 0)))) \<and>
    (\<forall>i<rows m. \<forall>j<cols m.
       elem out i j 0 = widen rnd m (host_at m st i j 1) \<and>
       elem out i j 1 = widen rnd m (host_at m st i j 0))"
proof -
  note r = mat_to_array_planes [OF run ok]
  have d2: "d2 out = 2" using r(3) ch by (simp add: planes_def)
  have p: "plane out 0 = transposed rnd m st 1" "plane out 1 = transposed rnd m st 0"
    using r(7) ch by simp_all
  have len: "length (ptr m st) = rows m * cols m * channels m" using ok by (simp add: mat_ok_def)
  have t: "elems (T (array_host (cols m) (rows m) (map (widen rnd m) (host_channel m st c))))
           = transposed rnd m st c" if "c < 2" for c
    using transposed_as_T [OF len, of c rnd] that ch by simp
  have le: "(k + 1) * (rows m * cols m) \<le> length (elems out)" if "k < 2" for k
    using planes_le [OF that] r(4) ch by (simp add: planes_def)
  have el: "elem out i j 0 = widen rnd m (host_at m st i j 1) \<and>
            elem out i j 1 = widen rnd m (host_at m st i j 0)" if "i < rows m" "j < cols m" for i j
    using elem_of_plane [OF r(1,2) p(1) le that] elem_of_plane [OF r(1,2) p(2) le that] by simp
  show ?thesis using d2 p t el by simp
qed

theorem C6_two_channels_reversed_witness:
  "mat_ok pair_1x2 mem4 \<and> channels pair_1x2 = 2 \<and>
   plane (snd (mat_to_array exact pair_1x2 mem4)) 0 = [Some 2, Some 4] \<and>
   plane (snd (mat_to_array exact pair_1x2 mem4)) 1 = [Some 1, Some 3]"
proof -
  let ?T = "\<lambda>c. elems (T (array_host (cols pair_1x2) (rows pair_1x2)
           (map (widen exact pair_1x2) (host_channel pair_1x2 mem4 c))))"
  have ok: "mat_ok pair_1x2 mem4" by code_simp
  have ch: "channels pair_1x2 = 2" by code_simp
  have run: "mat_to_array exact pair_1x2 mem4 =
      (fst (mat_to_array exact pair_1x2 mem4), snd (mat_to_array exact pair_1x2 mem4))"
    by simp
  have v: "?T 1 = [Some 2, Some 4]" "?T 0 = [Some 1, Some 3]" by code_simp+
  show ?thesis using ok ch C6_two_channels_reversed [OF ok ch run] v by simp
qed

text \<open>
  C7: for every host image whose channel count is neither 1 nor 3, \<open>mat_to_array\<close> takes
  the two-channel path: nothing is reported, and the array it returns has two planes, made
  of host channels 1 and 0, whatever the channel count of the image is.
\<close>

theorem C7_other_counts_take_two_channel_path:
  assumes ok: "mat_ok m st" and ch: "channels m \<noteq> 1" "channels m \<noteq> 3"
    and run: "mat_to_array rnd m st = (st', out)"
  shows "msgs st' = msgs st \<and> d0 out = rows m \<and> d1 out = cols m \<and> d2 out = 2 \<and>
    length (elems out) = 2 * (rows m * cols m) \<and>
    plane out 0 = elems (T (array_host (cols m) (rows m) (map (widen rnd m) (host_channel m st 1)))) \<and>
    plane out 1 = elems (T (array_host (cols m) (rows m) (map (widen rnd m) (host_channel m st 0))))"
proof -
  note r = mat_to_array_planes [OF run ok]
  have d2: "d2 out = 2" and l: "length (elems out) = 2 * (rows m * cols m)"
    using r(3,4) ch by (simp_all add: planes_def)
  have p: "plane out 0 = transposed rnd m st 1" "plane out 1 = transposed rnd m st 0"
    using r(7) ch by simp_all
  have len: "length (ptr m st) = rows m * cols m * channels m" using ok by (simp add: mat_ok_def)
  have two: "2 \<le> channels m" using channels_pos [of m] ch(1) by simp
  have t: "elems (T (array_host (cols m) (rows m) (map (widen rnd m) (host_channel m st c))))
           = transposed rnd m st c" if "c < 2" for c
    using transposed_as_T [OF len, of c rnd] that two by simp
  show ?thesis using r(1,2,8) d2 l p t by simp
qed

theorem C7_other_counts_take_two_channel_path_witness:
  "mat_ok quad_1x1 mem4 \<and> channels quad_1x1 = 4 \<and>
   msgs (fst (mat_to_array exact quad_1x1 mem4)) = [] \<and>
   d2 (snd (mat_to_array exact quad_1x1 mem4)) = 2 \<and>
   plane (snd (mat_to_array exact quad_1x1 mem4)) 0 = [Some 2] \<and>
   plane (snd (mat_to_array exact quad_1x1 mem4)) 1 = [Some 1]"
proof -
  let ?T = "\<lambda>c. elems (T (array_host (cols quad_1x1) (rows quad_1x1)
           (map (widen exact quad_1x1) (host_channel quad_1x1 mem4 c))))"
  have ok: "mat_ok quad_1x1 mem4" by code_simp
  have ch: "channels quad_1x1 = 4" by code_simp
  have n1: "channels quad_1x1 \<noteq> 1" and n3: "channels quad_1x1 \<noteq> 3" using ch by simp_all
  have run: "mat_to_array exact quad_1x1 mem4 =
      (fst (mat_to_array exact quad_1x1 mem4), snd (mat_to_array exact quad_1x1 mem4))"
    by simp
  have v: "?T 1 = [Some 2]" "?T 0 = [Some 1]" "msgs mem4 = []" by code_simp+
  show ?thesis using ok ch C7_other_counts_take_two_channel_path [OF ok n1 n3 run] v by simp
qed

text \<open>
  C8: for every host image, the two public overloads of \<open>mat_to_array\<close> leave the pixels of
  the caller's matrix, and every buffer that existed before the call, as they were. The
  conversion in place (\<open>mat_to_array'_converts_its_argument\<close>) is done on the clone.
\<close>

theorem C8_caller_buffers_unchanged:
  assumes ok: "mat_ok input st"
    and run: "mat_to_array rnd input st = (st', out)"
    and run_out: "mat_to_array_out rnd input output st = (st'', out')"
  shows "ptr input st' = ptr input st \<and> take (length (bufs st)) (bufs st') = bufs st \<and>
         ptr input st'' = ptr input st \<and> take (length (bufs st)) (bufs st'') = bufs st"
proof -
  have d: "data input < length (bufs st)" using ok by (simp add: mat_ok_def)
  have fr: "take (length (bufs st)) (bufs st') = bufs st"
    using mat_to_array_planes(9) [OF run ok] .
  have run2: "mat_to_array rnd input st = (st'', out')"
    using run_out by (simp add: mat_to_array_out_eq)
  have fr2: "take (length (bufs st)) (bufs st'') = bufs st"
    using mat_to_array_planes(9) [OF run2 ok] .
  show ?thesis
    using fr fr2 take_nth_same [OF fr d] take_nth_same [OF fr2 d] by (simp add: ptr_def)
qed

theorem C8_caller_buffers_unchanged_witness:
  "mat_ok gray_2x2 mem4 \<and>
   ptr gray_2x2 (fst (mat_to_array exact gray_2x2 mem4)) = [Some 1, Some 2, Some 3, Some 4] \<and>
   ptr gray_2x2 (fst (mat_to_array_out exact gray_2x2 one_plane mem4))
     = [Some 1, Some 2, Some 3, Some 4] \<and>
   length (bufs (fst (mat_to_array exact gray_2x2 mem4))) = 3"
proof -
  have ok: "mat_ok gray_2x2 mem4" by code_simp
  have run: "mat_to_array exact gray_2x2 mem4 =
      (fst (mat_to_array exact gray_2x2 mem4), snd (mat_to_array exact gray_2x2 mem4))"
    by simp
  have run_out: "mat_to_array_out exact gray_2x2 one_plane mem4 =
      (fst (mat_to_array_out exact gray_2x2 one_plane mem4),
       snd (mat_to_array_out exact gray_2x2 one_plane mem4))"
    by simp
  have v: "ptr gray_2x2 mem4 = [Some 1, Some 2, Some 3, Some 4]"
    "length (bufs (fst (mat_to_array exact gray_2x2 mem4))) = 3"
    by code_simp+
  show ?thesis using ok C8_caller_buffers_unchanged [OF ok run run_out] v by simp
qed

text \<open>
  C9, as the source has it: for every host image of \<open>H\<close> rows, \<open>W\<close> columns and \<open>C\<close> channels,
  \<open>C\<close> being 1, 2 or 3, the array that \<open>mat_to_array\<close> returns has the dimensions
  \<open>(H, W, C)\<close> and is stored column-major: its element \<open>(i, j, k)\<close>, at the offset
  \<open>i + j * H + k * H * W\<close>, is the widened sample of channel \<open>C - 1 - k\<close> of the pixel in
  row \<open>i\<close> and column \<open>j\<close>. The dimensions are not \<open>(W, H, C)\<close>: a row of four pixels of one
  channel gives \<open>(1, 4, 1)\<close>, and one pixel of four channels gives two planes.
\<close>

theorem C9_dims_rows_cols_channels:
  assumes ok: "mat_ok m st" and ch: "channels m \<le> 3" and run: "mat_to_array rnd m st = (st', out)"
  shows "d0 out = rows m \<and> d1 out = cols m \<and> d2 out = channels m \<and>
    length (elems out) = rows m * cols m * channels m \<and>
    (\<forall>i<rows m. \<forall>j<cols m. \<forall>k<channels m.
       elem out i j k = widen rnd m (host_at m st i j (channels m - 1 - k)))"
proof -
  note r = mat_to_array_planes [OF run ok]
  have pl: "planes m = channels m"
    using ch channels_pos [of m] by (auto simp: planes_def)
  have l: "length (elems out) = rows m * cols m * channels m"
    using r(4) pl by (simp add: mult.commute)
  have p: "plane out k = transposed rnd m st (channels m - 1 - k)" if "k < channels m" for k
  proof -
    consider "channels m = 1" | "channels m = 2" | "channels m = 3"
      using ch channels_pos [of m] by linarith
    then show ?thesis
    proof cases
      case 1
      then show ?thesis using r(5) that by simp
    next
      case 2
      then have "k = 0 \<or> k = 1" using that by auto
      then show ?thesis using r(7) 2 by auto
    next
      case 3
      then have "k = 0 \<or> k = 1 \<or> k = 2" using that by auto
      then show ?thesis using r(6) 3 by auto
    qed
  qed
  have le: "(k + 1) * (rows m * cols m) \<le> length (elems out)" if "k < channels m" for k
    using planes_le [OF that] r(4) pl by simp
  have el: "elem out i j k = widen rnd m (host_at m st i j (channels m - 1 - k))"
    if "i < rows m" "j < cols m" "k < channels m" for i j k
    using elem_of_plane [OF r(1,2) p [OF that(3)] le [OF that(3)] that(1,2)] .
  show ?thesis using r(1,2,3) pl l el by simp
qed

theorem C9_dims_rows_cols_channels_witness:
  "mat_ok gray_1x4 mem4 \<and> channels gray_1x4 \<le> 3 \<and>
   d0 (snd (mat_to_array exact gray_1x4 mem4)) = 1 \<and>
   d1 (snd (mat_to_array exact gray_1x4 mem4)) = 4 \<and>
   d2 (snd (mat_to_array exact gray_1x4 mem4)) = 1 \<and>
   elem (snd (mat_to_array exact gray_1x4 mem4)) 0 2 0 = Some 3"
proof -
  have ok: "mat_ok gray_1x4 mem4" by code_simp
  have ch: "channels gray_1x4 \<le> 3" by code_simp
  have run: "mat_to_array exact gray_1x4 mem4 =
      (fst (mat_to_array exact gray_1x4 mem4), snd (mat_to_array exact gray_1x4 mem4))"
    by simp
  have v: "rows gray_1x4 = 1" "cols gray_1x4 = 4" "channels gray_1x4 = 1"
    "widen exact gray_1x4 (host_at gray_1x4 mem4 0 2 (channels gray_1x4 - 1 - 0)) = Some 3"
    by code_simp+
  show ?thesis using ok ch C9_dims_rows_cols_channels [OF ok ch run] v by simp
qed

theorem C9_dims_counterexample:
  "\<not> (d0 (snd (mat_to_array exact gray_1x4 mem4)) = cols gray_1x4 \<and>
      d1 (snd (mat_to_array exact gray_1x4 mem4)) = rows gray_1x4 \<and>
      d2 (snd (mat_to_array exact gray_1x4 mem4)) = channels gray_1x4) \<and>
   \<not> (d0 (snd (mat_to_array exact quad_1x1 mem4)) = cols quad_1x1 \<and>
      d1 (snd (mat_to_array exact quad_1x1 mem4)) = rows quad_1x1 \<and>
      d2 (snd (mat_to_array exact quad_1x1 mem4)) = channels quad_1x1)"
  by code_simp

text \<open>
  C10: for every device pointer, \<open>free\<close> does nothing: it returns without an error and
  the set of live allocations is the one it was given.
\<close>

theorem C10_free_is_noop: "free p live = Inr live"
  by (simp add: free_def)

end
